theory Spec2Isabelle
  imports Complex_Main
begin

section \<open>Library functions the exporter calls\<close>

subsection \<open>\<^verbatim>\<open>strings.Fields\<close>\<close>

text \<open>
  A Go string is a sequence of bytes, here a \<^typ>\<open>string\<close>. \<^verbatim>\<open>strings.Fields\<close> cuts
  it around every maximal run of white space runes (\<^verbatim>\<open>unicode.IsSpace\<close>) and returns the
  pieces between them, never an empty piece. \<open>spaceWidth s\<close> is the number of bytes of the
  white space rune that \<open>s\<close> starts with, and 0 when it starts with none: the six ASCII
  characters tab, line feed, vertical tab, form feed, carriage return and space, and the
  UTF-8 encodings of U+0085, U+00A0, U+1680, U+2000 to U+200A, U+2028, U+2029, U+202F,
  U+205F and U+3000. A byte that starts no white space rune belongs to a field: no white
  space encoding begins with a continuation byte, so reading byte by byte finds the same
  separators as decoding rune by rune.
\<close>

definition spaceWidth :: "string \<Rightarrow> nat" where
  "spaceWidth s =
     (case map of_char (take 3 s) :: nat list of
        [] \<Rightarrow> 0
      | b0 # bs \<Rightarrow>
          if (9 \<le> b0 \<and> b0 \<le> 13) \<or> b0 = 32 then 1
          else if b0 = 194 then
            (case bs of
               b1 # _ \<Rightarrow> if b1 = 133 \<or> b1 = 160 then 2 else 0
             | [] \<Rightarrow> 0)
          else if b0 = 225 then (if bs = [154, 128] then 3 else 0)
          else if b0 = 226 then
            (case bs of
               [b1, b2] \<Rightarrow>
                 if b1 = 128 \<and> ((128 \<le> b2 \<and> b2 \<le> 138) \<or> b2 = 168 \<or> b2 = 169 \<or> b2 = 175)
                 then 3
                 else if b1 = 129 \<and> b2 = 159 then 3 else 0
             | _ \<Rightarrow> 0)
          else if b0 = 227 then (if bs = [128, 128] then 3 else 0)
          else 0)"

text \<open>
  \<open>FieldsFrom cur s\<close>: \<open>cur\<close> is the field being read (empty between fields) and \<open>s\<close>
  the unread rest of the line.
\<close>

function FieldsFrom :: "string \<Rightarrow> string \<Rightarrow> string list" where
  "FieldsFrom cur [] = (if cur = [] then [] else [cur])"
| "FieldsFrom cur (c # s) =
     (if 0 < spaceWidth (c # s)
      then (if cur = [] then [] else [cur]) @ FieldsFrom [] (drop (spaceWidth (c # s)) (c # s))
      else FieldsFrom (cur @ [c]) s)"
  by pat_completeness auto
termination
  by (relation "measure (\<lambda>(cur, s). length s)") auto

definition Fields :: "string \<Rightarrow> string list" where
  "Fields s = FieldsFrom [] s"

subsection \<open>\<^verbatim>\<open>strings.Split\<close> with the separator \<^verbatim>\<open>" "\<close>\<close>

text \<open>
  \<^verbatim>\<open>strings.Split(line, " ")\<close> cuts at every single space and keeps empty pieces; a line
  without a space, the empty line included, gives one piece.
\<close>

fun SplitFrom :: "string \<Rightarrow> string \<Rightarrow> string list" where
  "SplitFrom cur [] = [cur]"
| "SplitFrom cur (c # s) =
     (if c = CHR '' '' then cur # SplitFrom [] s else SplitFrom (cur @ [c]) s)"

definition Split :: "string \<Rightarrow> string list" where
  "Split line = SplitFrom [] line"

subsection \<open>\<^verbatim>\<open>strconv.ParseFloat\<close>\<close>

text \<open>
  \<^verbatim>\<open>strconv.ParseFloat(tok, 64)\<close> returns a 64-bit float or an error. The exporter only
  tests the error against \<^verbatim>\<open>nil\<close> and passes the float on, so the collector below takes
  the parser as a parameter \<open>pf :: string \<Rightarrow> numError + 'f\<close>, with \<open>'f\<close> the type of
  floats: what is proved holds for every parser.
\<close>

datatype numError = ErrSyntax | ErrRange

text \<open>
  For running concrete scrapes, \<open>plainDecimal\<close> reads the unsigned decimal tokens without
  exponent (\<^verbatim>\<open>12\<close>, \<^verbatim>\<open>14.0\<close>, \<^verbatim>\<open>.5\<close>, \<^verbatim>\<open>3.\<close>) to their exact value and rejects every other
  token. On such a token whose value is a binary64 number (every integer below \<open>2^53\<close>,
  for one) that value is what \<^verbatim>\<open>strconv.ParseFloat\<close> returns, and a token such as \<^verbatim>\<open>-\<close>
  or \<^verbatim>\<open>abc\<close> is a syntax error for both. It is used at such tokens only.
\<close>

definition digit :: "char \<Rightarrow> bool" where
  "digit c = (48 \<le> (of_char c :: nat) \<and> (of_char c :: nat) \<le> 57)"

definition digitsValue :: "string \<Rightarrow> nat" where
  "digitsValue ds = foldl (\<lambda>n c. 10 * n + (of_char c - 48)) 0 ds"

definition plainDecimal :: "string \<Rightarrow> numError + rat" where
  "plainDecimal tok =
     (let ip = takeWhile digit tok; r = dropWhile digit tok in
      if r = [] then (if ip = [] then Inl ErrSyntax else Inr (of_nat (digitsValue ip)))
      else if hd r = CHR ''.'' \<and> list_all digit (tl r) \<and> (ip \<noteq> [] \<or> tl r \<noteq> [])
      then Inr (of_nat (digitsValue (ip @ tl r)) / 10 ^ length (tl r))
      else Inl ErrSyntax)"

section \<open>The metric collector\<close>

text \<open>
  The \<^verbatim>\<open>Exporter\<close> struct has thirteen fields, each a gauge holding one float; \<open>gauge\<close>
  names the field and \<open>exporter\<close> gives the float each gauge holds. \<open>ch\<close> is the channel
  of the scrape: the metrics sent so far, oldest first, each with the value its gauge held
  when it was sent.
\<close>

datatype gauge =
    newMax | newCommit | oldMax | oldCommit | metaMax | metaCommit
  | metaUsed | oldUsed
  | sv0Used | sv1Used | edenUsed
  | fgcTimes | fgcSec

record 'f scrape =
  exporter :: "gauge \<Rightarrow> 'f"
  ch :: "(gauge \<times> 'f) list"

text \<open>
  A collector either returns or is cut short. \<^verbatim>\<open>log.Fatal(err)\<close> logs the parse error and
  ends the process with exit status 1. Reading \<^verbatim>\<open>parts[i]\<close> with \<open>i\<close> not below
  \<^verbatim>\<open>len(parts)\<close> is a run-time panic, index \<open>i\<close> out of range with length
  \<^verbatim>\<open>len(parts)\<close>: the collector never checks the number of fields. \<open>Stopped\<close> keeps the
  state reached at that moment.
\<close>

datatype abort = Fatal numError | IndexOutOfRange nat nat

datatype 'f outcome = Stopped abort "'f scrape" | Return "'f scrape"

text \<open>
  The block repeated for every gauge:
  \<^verbatim>\<open>v, err := strconv.ParseFloat(parts[i], 64); if err != nil { log.Fatal(err) };
  e.g.Set(v); e.g.Collect(ch)\<close>.
\<close>

definition setFromField ::
  "(string \<Rightarrow> numError + 'f) \<Rightarrow> string list \<Rightarrow> nat \<Rightarrow> gauge \<Rightarrow> 'f scrape \<Rightarrow> 'f outcome" where
  "setFromField pf parts i g s =
     (if i < length parts then
        (case pf (parts ! i) of
           Inl err \<Rightarrow> Stopped (Fatal err) s
         | Inr v \<Rightarrow> Return (s\<lparr>exporter := (exporter s)(g := v), ch := ch s @ [(g, v)]\<rparr>))
      else Stopped (IndexOutOfRange i (length parts)) s)"

text \<open>Statements in sequence: the first one that is cut short ends the run.\<close>

fun steps :: "('f scrape \<Rightarrow> 'f outcome) list \<Rightarrow> 'f scrape \<Rightarrow> 'f outcome" where
  "steps [] s = Return s"
| "steps (f # fs) s = (case f s of Stopped a s' \<Rightarrow> Stopped a s' | Return s' \<Rightarrow> steps fs s')"

text \<open>
  \<open>latestJstat\<close> is the global \<^verbatim>\<open>map[string]string\<close>, guarded by the lock \<open>mu\<close>. Every
  access holds the lock, so each is one step on the map: \<open>put\<close> is the poller's
  \<^verbatim>\<open>latestJstat[command] = line\<close>, \<open>get\<close> the collector's
  \<^verbatim>\<open>line, ok := latestJstat[key]\<close>, which yields the empty string and \<^verbatim>\<open>false\<close> for a
  missing key. A scrape is modelled against one state of the map.
\<close>

type_synonym store = "string \<rightharpoonup> string"

definition put :: "string \<Rightarrow> string \<Rightarrow> store \<Rightarrow> store" where
  "put command line latestJstat = latestJstat(command \<mapsto> line)"

definition get :: "store \<Rightarrow> string \<Rightarrow> string \<times> bool" where
  "get latestJstat key =
     (case latestJstat key of Some line \<Rightarrow> (line, True) | None \<Rightarrow> ([], False))"

definition JstatGccapacity ::
  "(string \<Rightarrow> numError + 'f) \<Rightarrow> store \<Rightarrow> 'f scrape \<Rightarrow> 'f outcome" where
  "JstatGccapacity pf latestJstat s =
     (case get latestJstat ''-gccapacity'' of
        (line, ok) \<Rightarrow>
          if ok \<and> line \<noteq> [] then
            (let parts = Fields line in
             steps [setFromField pf parts 1 newMax,
                    setFromField pf parts 2 newCommit,
                    setFromField pf parts 7 oldMax,
                    setFromField pf parts 8 oldCommit,
                    setFromField pf parts 11 metaMax,
                    setFromField pf parts 12 metaCommit] s)
          else Return s)"

definition JstatGcold ::
  "(string \<Rightarrow> numError + 'f) \<Rightarrow> store \<Rightarrow> 'f scrape \<Rightarrow> 'f outcome" where
  "JstatGcold pf latestJstat s =
     (case get latestJstat ''-gcold'' of
        (line, ok) \<Rightarrow>
          if ok \<and> line \<noteq> [] then
            (let parts = Fields line in
             steps [setFromField pf parts 1 metaUsed,
                    setFromField pf parts 5 oldUsed] s)
          else Return s)"

definition JstatGcnew ::
  "(string \<Rightarrow> numError + 'f) \<Rightarrow> store \<Rightarrow> 'f scrape \<Rightarrow> 'f outcome" where
  "JstatGcnew pf latestJstat s =
     (case get latestJstat ''-gcnew'' of
        (line, ok) \<Rightarrow>
          if ok \<and> line \<noteq> [] then
            (let parts = Fields line in
             steps [setFromField pf parts 2 sv0Used,
                    setFromField pf parts 3 sv1Used,
                    setFromField pf parts 8 edenUsed] s)
          else Return s)"

definition JstatGc ::
  "(string \<Rightarrow> numError + 'f) \<Rightarrow> store \<Rightarrow> 'f scrape \<Rightarrow> 'f outcome" where
  "JstatGc pf latestJstat s =
     (case get latestJstat ''-gc'' of
        (line, ok) \<Rightarrow>
          if ok \<and> line \<noteq> [] then
            (let parts = Fields line in
             steps [setFromField pf parts 14 fgcTimes,
                    setFromField pf parts 15 fgcSec] s)
          else Return s)"

definition Collect ::
  "(string \<Rightarrow> numError + 'f) \<Rightarrow> store \<Rightarrow> 'f scrape \<Rightarrow> 'f outcome" where
  "Collect pf latestJstat s =
     steps [JstatGccapacity pf latestJstat,
            JstatGcold pf latestJstat,
            JstatGcnew pf latestJstat,
            JstatGc pf latestJstat] s"

text \<open>
  \<^verbatim>\<open>NewExporter\<close> creates the gauges, each holding 0; a scrape starts with an empty channel.
  \<^verbatim>\<open>main\<close> creates \<open>latestJstat\<close> empty.
\<close>

definition NewExporter :: "gauge \<Rightarrow> rat" where
  "NewExporter = (\<lambda>g. 0)"

definition newScrape :: "rat scrape" where
  "newScrape = \<lparr>exporter = NewExporter, ch = []\<rparr>"

definition emptyStore :: store where
  "emptyStore = Map.empty"


text \<open>
  The four categories, the flag each one's poller publishes under (\<^verbatim>\<open>RunJstatGccapacity\<close>,
  \<^verbatim>\<open>RunJstatGcold\<close>, \<^verbatim>\<open>RunJstatGcnew\<close> and \<^verbatim>\<open>RunJstatGc\<close> pass it to \<^verbatim>\<open>runCommand\<close>)
  and each one's collector.
\<close>

datatype category = Gccapacity | Gcold | Gcnew | Gc

fun flag :: "category \<Rightarrow> string" where
  "flag Gccapacity = ''-gccapacity''"
| "flag Gcold = ''-gcold''"
| "flag Gcnew = ''-gcnew''"
| "flag Gc = ''-gc''"

fun collector ::
  "category \<Rightarrow> (string \<Rightarrow> numError + 'f) \<Rightarrow> store \<Rightarrow> 'f scrape \<Rightarrow> 'f outcome" where
  "collector Gccapacity = JstatGccapacity"
| "collector Gcold = JstatGcold"
| "collector Gcnew = JstatGcnew"
| "collector Gc = JstatGc"

text \<open>
  The field-position table as the specification gives it, one row per category: the token
  position and the gauge it feeds.
\<close>

fun fieldTable :: "category \<Rightarrow> (nat \<times> gauge) list" where
  "fieldTable Gccapacity =
     [(1, newMax), (2, newCommit), (7, oldMax), (8, oldCommit), (11, metaMax), (12, metaCommit)]"
| "fieldTable Gcold = [(1, metaUsed), (5, oldUsed)]"
| "fieldTable Gcnew = [(2, sv0Used), (3, sv1Used), (8, edenUsed)]"
| "fieldTable Gc = [(14, fgcTimes), (15, fgcSec)]"

text \<open>The state an outcome carries, and what a run has added to the channel.\<close>

fun final :: "'f outcome \<Rightarrow> 'f scrape" where
  "final (Stopped a s) = s"
| "final (Return s) = s"

definition sent :: "'f scrape \<Rightarrow> 'f scrape \<Rightarrow> (gauge \<times> 'f) list" where
  "sent s s' = drop (length (ch s)) (ch s')"

text \<open>
  The specification's \<^verbatim>\<open>MalformedSample\<close>: the collector ended the process through
  \<^verbatim>\<open>log.Fatal\<close> with the error of a token that does not parse.
\<close>

fun MalformedSample :: "'f outcome \<Rightarrow> bool" where
  "MalformedSample (Stopped (Fatal err) s) = True"
| "MalformedSample (Stopped (IndexOutOfRange i n) s) = False"
| "MalformedSample (Return s) = False"

text \<open>
  Between the states \<open>s\<close> and \<open>s'\<close> of a scrape the gauge \<open>g\<close> was neither set nor sent.
\<close>

definition untouched :: "gauge \<Rightarrow> 'f scrape \<Rightarrow> 'f scrape \<Rightarrow> bool" where
  "untouched g s s' =
     (exporter s' g = exporter s g \<and> (\<exists>xs. ch s' = ch s @ xs \<and> g \<notin> fst ` set xs))"

section \<open>The sample poller\<close>

text \<open>
  The inner loop of \<^verbatim>\<open>runCommand\<close>: \<open>lines\<close> are the lines the scanner delivers from the
  subprocess's standard output, in order, and \<open>first\<close> is the loop's flag.
\<close>

fun scanLines :: "string \<Rightarrow> bool \<Rightarrow> string list \<Rightarrow> store \<Rightarrow> store" where
  "scanLines command first [] latestJstat = latestJstat"
| "scanLines command first (line # rest) latestJstat =
     (if first then scanLines command False rest latestJstat
      else scanLines command False rest (put command line latestJstat))"

text \<open>One polling session: \<^verbatim>\<open>first := true\<close>, then the loop until the output ends.\<close>

definition session :: "string \<Rightarrow> string list \<Rightarrow> store \<Rightarrow> store" where
  "session command lines latestJstat = scanLines command True lines latestJstat"

section \<open>The process locator\<close>

text \<open>
  \<^verbatim>\<open>Jps\<close> gets the standard output of \<^verbatim>\<open>jps\<close>, or the error of opening the pipe. The loop
  leaves \<open>pid\<close> empty unless a line splits into exactly two items and is chosen;
  \<open>JpsScan\<close> returns \<open>pid\<close> as the loop leaves it.
\<close>

datatype jpsError = StdoutPipe string | NoTargetProcess string

fun JpsScan :: "string \<Rightarrow> string list \<Rightarrow> string" where
  "JpsScan name [] = []"
| "JpsScan name (line # rest) =
     (let items = Split line in
      if length items = 2 then
        if items ! 1 = ''Jps'' \<or> items ! 1 = ''Jstat'' then JpsScan name rest
        else if name \<noteq> [] then
          (if items ! 1 = name then items ! 0 else JpsScan name rest)
        else items ! 0
      else JpsScan name rest)"

definition Jps :: "string \<Rightarrow> string + string list \<Rightarrow> jpsError + string" where
  "Jps name stdout =
     (case stdout of
        Inl err \<Rightarrow> Inl (StdoutPipe err)
      | Inr lines \<Rightarrow>
          (let pid = JpsScan name lines in
           if length pid = 0 then Inl (NoTargetProcess name) else Inr pid))"

text \<open>
  The locator as the specification words it. An entry is a line of the form
  \<^verbatim>\<open>pid name\<close>; entries named after the two tools are skipped; with a target name the
  first entry of that name is chosen, without one the first entry left.
\<close>

definition entries :: "string list \<Rightarrow> (string \<times> string) list" where
  "entries lines =
     map (\<lambda>items. (items ! 0, items ! 1))
       (filter (\<lambda>items. length items = 2) (map Split lines))"

definition excluded :: "string \<Rightarrow> bool" where
  "excluded n = (n = ''Jps'' \<or> n = ''Jstat'')"

definition eligible :: "string \<Rightarrow> string \<times> string \<Rightarrow> bool" where
  "eligible name e = (\<not> excluded (snd e) \<and> (name = [] \<or> snd e = name))"

definition locate :: "string \<Rightarrow> string list \<Rightarrow> jpsError + string" where
  "locate name lines =
     (case find (eligible name) (entries lines) of
        None \<Rightarrow> Inl (NoTargetProcess name)
      | Some e \<Rightarrow> Inr (fst e))"

section \<open>Properties of the collector\<close>

lemma Fields_Nil: "Fields [] = []"
  by (simp add: Fields_def)

lemma setFromField_ok:
  "i < length parts \<Longrightarrow> pf (parts ! i) = Inr v \<Longrightarrow>
   setFromField pf parts i g s =
     Return (s\<lparr>exporter := (exporter s)(g := v), ch := ch s @ [(g, v)]\<rparr>)"
  by (simp add: setFromField_def)

lemma setFromField_fatal:
  "i < length parts \<Longrightarrow> pf (parts ! i) = Inl err \<Longrightarrow>
   setFromField pf parts i g s = Stopped (Fatal err) s"
  by (simp add: setFromField_def)

lemma setFromField_panic:
  "\<not> i < length parts \<Longrightarrow>
   setFromField pf parts i g s = Stopped (IndexOutOfRange i (length parts)) s"
  by (simp add: setFromField_def)

text \<open>Every collector is the run of its row of the field-position table.\<close>

lemma collector_table:
  "collector c pf latestJstat s =
     (case get latestJstat (flag c) of
        (line, ok) \<Rightarrow>
          if ok \<and> line \<noteq> [] then
            steps (map (\<lambda>(i, g). setFromField pf (Fields line) i g) (fieldTable c)) s
          else Return s)"
proof (cases "get latestJstat (flag c)")
  case (Pair line ok)
  then show ?thesis
    by (cases c)
       (simp_all add: JstatGccapacity_def JstatGcold_def JstatGcnew_def JstatGc_def Let_def
          del: steps.simps)
qed

lemma collector_skips:
  "latestJstat (flag c) = None \<or> latestJstat (flag c) = Some [] \<Longrightarrow>
   collector c pf latestJstat s = Return s"
  by (auto simp: collector_table get_def)

text \<open>
  Claim C1. When the line stored under \<^verbatim>\<open>-gccapacity\<close> has at least 13 fields and the
  fields at positions 1, 2, 7, 8, 11 and 12 parse to the floats \<open>v1\<close>, \<open>v2\<close>, \<open>v7\<close>,
  \<open>v8\<close>, \<open>v11\<close> and \<open>v12\<close>, the collector returns with \<open>newMax\<close>, \<open>newCommit\<close>,
  \<open>oldMax\<close>, \<open>oldCommit\<close>, \<open>metaMax\<close> and \<open>metaCommit\<close> holding exactly these floats, and
  has sent these six metrics, in this order, and nothing else.
\<close>

theorem JstatGccapacity_sets_six_gauges:
  assumes "latestJstat ''-gccapacity'' = Some line"
    and "13 \<le> length (Fields line)"
    and "pf (Fields line ! 1) = Inr v1"
    and "pf (Fields line ! 2) = Inr v2"
    and "pf (Fields line ! 7) = Inr v7"
    and "pf (Fields line ! 8) = Inr v8"
    and "pf (Fields line ! 11) = Inr v11"
    and "pf (Fields line ! 12) = Inr v12"
  shows "JstatGccapacity pf latestJstat s =
     Return (s\<lparr>exporter := (exporter s)(newMax := v1, newCommit := v2, oldMax := v7,
                 oldCommit := v8, metaMax := v11, metaCommit := v12),
               ch := ch s @ [(newMax, v1), (newCommit, v2), (oldMax, v7),
                            (oldCommit, v8), (metaMax, v11), (metaCommit, v12)]\<rparr>)"
proof -
  from assms(2) have ne: "line \<noteq> []"
    by (auto simp: Fields_Nil)
  have len: "1 < length (Fields line)" "2 < length (Fields line)" "7 < length (Fields line)"
    "8 < length (Fields line)" "11 < length (Fields line)" "12 < length (Fields line)"
    using assms(2) by simp_all
  show ?thesis
    using assms(1,3-8) len ne
    by (simp add: JstatGccapacity_def get_def setFromField_ok)
qed

lemma gccapacity_line:
  "Fields ''0.0 1048576.0 39936.0 0.0 4096.0 35840.0 0.0 1048576.0 25600.0 25600.0 0.0 1058816.0 11904.0''
   = [''0.0'', ''1048576.0'', ''39936.0'', ''0.0'', ''4096.0'', ''35840.0'', ''0.0'', ''1048576.0'',
      ''25600.0'', ''25600.0'', ''0.0'', ''1058816.0'', ''11904.0'']"
  by code_simp

lemma plainDecimal_gccapacity:
  "plainDecimal ''1048576.0'' = Inr 1048576"
  "plainDecimal ''39936.0'' = Inr 39936"
  "plainDecimal ''25600.0'' = Inr 25600"
  "plainDecimal ''1058816.0'' = Inr 1058816"
  "plainDecimal ''11904.0'' = Inr 11904"
  by (simp_all add: plainDecimal_def digit_def digitsValue_def)

text \<open>A scrape of a line as \<^verbatim>\<open>jstat -gccapacity\<close> prints it, cut after 13 columns.\<close>

theorem JstatGccapacity_sets_six_gauges_witness:
  "JstatGccapacity plainDecimal
     (emptyStore(''-gccapacity'' \<mapsto>
        ''0.0 1048576.0 39936.0 0.0 4096.0 35840.0 0.0 1048576.0 25600.0 25600.0 0.0 1058816.0 11904.0''))
     newScrape =
   Return \<lparr>exporter = NewExporter(newMax := 1048576, newCommit := 39936, oldMax := 1048576,
             oldCommit := 25600, metaMax := 1058816, metaCommit := 11904),
           ch = [(newMax, 1048576), (newCommit, 39936), (oldMax, 1048576),
                 (oldCommit, 25600), (metaMax, 1058816), (metaCommit, 11904)]\<rparr>"
  using JstatGccapacity_sets_six_gauges [of
     "emptyStore(''-gccapacity'' \<mapsto>
        ''0.0 1048576.0 39936.0 0.0 4096.0 35840.0 0.0 1048576.0 25600.0 25600.0 0.0 1058816.0 11904.0'')"
     "''0.0 1048576.0 39936.0 0.0 4096.0 35840.0 0.0 1048576.0 25600.0 25600.0 0.0 1058816.0 11904.0''"
     plainDecimal 1048576 39936 1048576 25600 1058816 11904 newScrape]
  by (simp add: gccapacity_line plainDecimal_gccapacity newScrape_def)

lemma gc_line:
  "Fields ''0.0 1.0 2.0 3.0 4.0 5.0 6.0 7.0 8.0 9.0 10.0 11.0 12.0 13.0 14.0 15.0'' =
   [''0.0'', ''1.0'', ''2.0'', ''3.0'', ''4.0'', ''5.0'', ''6.0'', ''7.0'', ''8.0'', ''9.0'',
    ''10.0'', ''11.0'', ''12.0'', ''13.0'', ''14.0'', ''15.0'']"
  by code_simp

lemma plainDecimal_gc:
  "plainDecimal ''14.0'' = Inr 14"
  "plainDecimal ''15.0'' = Inr 15"
  by (simp_all add: plainDecimal_def digit_def digitsValue_def)

lemma JstatGc_two:
  assumes "latestJstat ''-gc'' = Some line"
    and "16 \<le> length (Fields line)"
    and "pf (Fields line ! 14) = Inr v14"
    and "pf (Fields line ! 15) = Inr v15"
  shows "JstatGc pf latestJstat s =
     Return (s\<lparr>exporter := (exporter s)(fgcTimes := v14, fgcSec := v15),
               ch := ch s @ [(fgcTimes, v14), (fgcSec, v15)]\<rparr>)"
proof -
  from assms(2) have ne: "line \<noteq> []"
    by (auto simp: Fields_Nil)
  have len: "14 < length (Fields line)" "15 < length (Fields line)"
    using assms(2) by simp_all
  show ?thesis
    using assms(1,3,4) len ne
    by (simp add: JstatGc_def get_def setFromField_ok)
qed

text \<open>
  Claim C8. When the line stored under \<^verbatim>\<open>-gc\<close> has at least 16 fields and the fields at
  positions 14 and 15 parse to the floats \<open>v14\<close> and \<open>v15\<close>, the collector returns with
  \<open>fgcTimes\<close> holding \<open>v14\<close> and \<open>fgcSec\<close> holding \<open>v15\<close>, and has sent these two metrics.
  In particular, with the line \<^verbatim>\<open>0.0 1.0 ... 15.0\<close> stored, \<open>fgcTimes\<close> is the float of the
  token \<^verbatim>\<open>14.0\<close> and \<open>fgcSec\<close> the float of the token \<^verbatim>\<open>15.0\<close>.
\<close>

theorem JstatGc_sets_fgcTimes_fgcSec:
  "(latestJstat ''-gc'' = Some line \<and> 16 \<le> length (Fields line) \<and>
    pf (Fields line ! 14) = Inr v14 \<and> pf (Fields line ! 15) = Inr v15 \<longrightarrow>
    JstatGc pf latestJstat s =
      Return (s\<lparr>exporter := (exporter s)(fgcTimes := v14, fgcSec := v15),
                ch := ch s @ [(fgcTimes, v14), (fgcSec, v15)]\<rparr>)) \<and>
   (latestJstat' ''-gc'' =
      Some ''0.0 1.0 2.0 3.0 4.0 5.0 6.0 7.0 8.0 9.0 10.0 11.0 12.0 13.0 14.0 15.0'' \<and>
    pf ''14.0'' = Inr a \<and> pf ''15.0'' = Inr b \<longrightarrow>
    JstatGc pf latestJstat' s =
      Return (s\<lparr>exporter := (exporter s)(fgcTimes := a, fgcSec := b),
                ch := ch s @ [(fgcTimes, a), (fgcSec, b)]\<rparr>))"
proof (intro conjI impI)
  assume "latestJstat ''-gc'' = Some line \<and> 16 \<le> length (Fields line) \<and>
    pf (Fields line ! 14) = Inr v14 \<and> pf (Fields line ! 15) = Inr v15"
  then show "JstatGc pf latestJstat s =
      Return (s\<lparr>exporter := (exporter s)(fgcTimes := v14, fgcSec := v15),
                ch := ch s @ [(fgcTimes, v14), (fgcSec, v15)]\<rparr>)"
    by (simp add: JstatGc_two)
next
  assume h: "latestJstat' ''-gc'' =
      Some ''0.0 1.0 2.0 3.0 4.0 5.0 6.0 7.0 8.0 9.0 10.0 11.0 12.0 13.0 14.0 15.0'' \<and>
    pf ''14.0'' = Inr a \<and> pf ''15.0'' = Inr b"
  show "JstatGc pf latestJstat' s =
      Return (s\<lparr>exporter := (exporter s)(fgcTimes := a, fgcSec := b),
                ch := ch s @ [(fgcTimes, a), (fgcSec, b)]\<rparr>)"
    by (rule JstatGc_two [where line = "''0.0 1.0 2.0 3.0 4.0 5.0 6.0 7.0 8.0 9.0 10.0 11.0 12.0 13.0 14.0 15.0''"])
       (simp_all add: h gc_line)
qed

text \<open>The scenario itself, with the tokens read as decimals: 14 and 15.\<close>

theorem JstatGc_sets_fgcTimes_fgcSec_witness:
  "JstatGc plainDecimal
     (emptyStore(''-gc'' \<mapsto> ''0.0 1.0 2.0 3.0 4.0 5.0 6.0 7.0 8.0 9.0 10.0 11.0 12.0 13.0 14.0 15.0''))
     newScrape =
   Return \<lparr>exporter = NewExporter(fgcTimes := 14, fgcSec := 15),
           ch = [(fgcTimes, 14), (fgcSec, 15)]\<rparr>"
  using JstatGc_sets_fgcTimes_fgcSec [of
     "emptyStore(''-gc'' \<mapsto> ''0.0 1.0 2.0 3.0 4.0 5.0 6.0 7.0 8.0 9.0 10.0 11.0 12.0 13.0 14.0 15.0'')"
     "''0.0 1.0 2.0 3.0 4.0 5.0 6.0 7.0 8.0 9.0 10.0 11.0 12.0 13.0 14.0 15.0''"
     plainDecimal 14 15 newScrape
     "emptyStore(''-gc'' \<mapsto> ''0.0 1.0 2.0 3.0 4.0 5.0 6.0 7.0 8.0 9.0 10.0 11.0 12.0 13.0 14.0 15.0'')"
     14 15]
  by (simp add: gc_line plainDecimal_gc newScrape_def)

lemma gcold_short_line: "Fields ''0.0 2895.0 4096.0'' = [''0.0'', ''2895.0'', ''4096.0'']"
  by code_simp

lemma gcold_dash_line: "Fields ''0.0 - 4096.0'' = [''0.0'', ''-'', ''4096.0'']"
  by code_simp

lemma gcold_123_line: "Fields ''1 2 3'' = [''1'', ''2'', ''3'']"
  by code_simp

lemma plainDecimal_gcold:
  "plainDecimal ''2895.0'' = Inr 2895"
  "plainDecimal ''2'' = Inr 2"
  "plainDecimal ''-'' = Inl ErrSyntax"
  by (simp_all add: plainDecimal_def digit_def digitsValue_def)

text \<open>
  Claim C2, as stated, fails. With the three fields \<^verbatim>\<open>1 2 3\<close> stored under \<^verbatim>\<open>-gcold\<close>,
  field 1 parses, \<open>metaUsed\<close> is set to 2 and sent, and the read of \<^verbatim>\<open>parts[5]\<close> panics with
  index 5 out of range for length 3: no parse error is raised and \<^verbatim>\<open>log.Fatal\<close> is not
  reached.
\<close>

theorem JstatGcold_three_fields_counterexample:
  "\<not> MalformedSample (JstatGcold plainDecimal (emptyStore(''-gcold'' \<mapsto> ''1 2 3'')) newScrape) \<and>
   JstatGcold plainDecimal (emptyStore(''-gcold'' \<mapsto> ''1 2 3'')) newScrape =
     Stopped (IndexOutOfRange 5 3) \<lparr>exporter = NewExporter(metaUsed := 2), ch = [(metaUsed, 2)]\<rparr>"
  by (simp add: JstatGcold_def get_def gcold_123_line setFromField_def plainDecimal_gcold
      newScrape_def)

text \<open>
  Claim C2, amended. When the line stored under \<^verbatim>\<open>-gcold\<close> has exactly 3 fields, the
  collector does not return and \<open>oldUsed\<close> is neither set nor sent. If field 1 does not
  parse, \<^verbatim>\<open>log.Fatal\<close> ends the process with that parse error before any gauge is set.
  If field 1 parses to \<open>v\<close>, \<open>metaUsed\<close> is set to \<open>v\<close> and sent, and the collector then
  panics at \<^verbatim>\<open>parts[5]\<close> with index 5 out of range for length 3.
\<close>

theorem JstatGcold_three_fields:
  assumes "latestJstat ''-gcold'' = Some line"
    and "length (Fields line) = 3"
  shows "JstatGcold pf latestJstat s =
     (case pf (Fields line ! 1) of
        Inl err \<Rightarrow> Stopped (Fatal err) s
      | Inr v \<Rightarrow>
          Stopped (IndexOutOfRange 5 3)
            (s\<lparr>exporter := (exporter s)(metaUsed := v), ch := ch s @ [(metaUsed, v)]\<rparr>))"
proof -
  from assms(2) have ne: "line \<noteq> []"
    by (auto simp: Fields_Nil)
  show ?thesis
    using assms ne
    by (simp add: JstatGcold_def get_def setFromField_def split: sum.splits)
qed

text \<open>Both cases: a line whose field 1 is \<^verbatim>\<open>-\<close>, and one whose field 1 is a number.\<close>

theorem JstatGcold_three_fields_witness:
  "JstatGcold plainDecimal (emptyStore(''-gcold'' \<mapsto> ''0.0 - 4096.0'')) newScrape =
     Stopped (Fatal ErrSyntax) newScrape \<and>
   JstatGcold plainDecimal (emptyStore(''-gcold'' \<mapsto> ''0.0 2895.0 4096.0'')) newScrape =
     Stopped (IndexOutOfRange 5 3)
       \<lparr>exporter = NewExporter(metaUsed := 2895), ch = [(metaUsed, 2895)]\<rparr>"
  using JstatGcold_three_fields [of "emptyStore(''-gcold'' \<mapsto> ''0.0 - 4096.0'')"
      "''0.0 - 4096.0''" plainDecimal newScrape]
    JstatGcold_three_fields [of "emptyStore(''-gcold'' \<mapsto> ''0.0 2895.0 4096.0'')"
      "''0.0 2895.0 4096.0''" plainDecimal newScrape]
  by (simp add: gcold_short_line gcold_dash_line plainDecimal_gcold newScrape_def)

lemma collector_skips_fun:
  "latestJstat (flag c) = None \<or> latestJstat (flag c) = Some [] \<Longrightarrow>
   collector c pf latestJstat = Return"
  by (rule ext) (simp add: collector_skips)

lemma Collect_collectors:
  "Collect pf latestJstat s =
     steps (map (\<lambda>c. collector c pf latestJstat) [Gccapacity, Gcold, Gcnew, Gc]) s"
  by (simp add: Collect_def del: steps.simps)

text \<open>
  Claim C6. When the store has no entry for a category, that category's collector returns
  at once: no gauge is set, nothing is sent, nothing fails. The whole scrape is then the
  run of the other three collectors, in their order, so what they emit is emitted still.
\<close>

theorem absent_category_emits_nothing:
  assumes "latestJstat (flag c) = None"
  shows "collector c pf latestJstat s = Return s \<and>
     Collect pf latestJstat s =
       steps (map (\<lambda>c'. collector c' pf latestJstat)
                (removeAll c [Gccapacity, Gcold, Gcnew, Gc])) s"
proof
  show "collector c pf latestJstat s = Return s"
    using assms by (simp add: collector_skips)
  have skip: "collector c pf latestJstat = Return"
    using assms by (simp add: collector_skips_fun)
  show "Collect pf latestJstat s =
       steps (map (\<lambda>c'. collector c' pf latestJstat)
                (removeAll c [Gccapacity, Gcold, Gcnew, Gc])) s"
    using skip
    by (cases c) (simp_all add: Collect_def split: outcome.splits)
qed

text \<open>
  Only \<^verbatim>\<open>-gc\<close> has a sample: the old-generation collector emits nothing, and the scrape
  emits the two gauges of \<^verbatim>\<open>-gc\<close> alone.
\<close>

theorem absent_category_emits_nothing_witness:
  "JstatGcold plainDecimal
     (emptyStore(''-gc'' \<mapsto> ''0.0 1.0 2.0 3.0 4.0 5.0 6.0 7.0 8.0 9.0 10.0 11.0 12.0 13.0 14.0 15.0''))
     newScrape = Return newScrape \<and>
   Collect plainDecimal
     (emptyStore(''-gc'' \<mapsto> ''0.0 1.0 2.0 3.0 4.0 5.0 6.0 7.0 8.0 9.0 10.0 11.0 12.0 13.0 14.0 15.0''))
     newScrape =
   Return \<lparr>exporter = NewExporter(fgcTimes := 14, fgcSec := 15),
           ch = [(fgcTimes, 14), (fgcSec, 15)]\<rparr>"
  using absent_category_emits_nothing [of
     "emptyStore(''-gc'' \<mapsto> ''0.0 1.0 2.0 3.0 4.0 5.0 6.0 7.0 8.0 9.0 10.0 11.0 12.0 13.0 14.0 15.0'')"
     Gcold plainDecimal newScrape]
  by (simp add: emptyStore_def JstatGccapacity_def JstatGcnew_def JstatGc_def get_def
      gc_line setFromField_def plainDecimal_gc newScrape_def)

subsection \<open>Tokens that do not parse\<close>

lemma untouched_refl: "untouched g s s"
  by (simp add: untouched_def)

lemma untouched_trans:
  "untouched g s s1 \<Longrightarrow> untouched g s1 s2 \<Longrightarrow> untouched g s s2"
  by (auto simp: untouched_def)

lemma untouched_sent:
  "untouched g s s' \<Longrightarrow> g \<notin> fst ` set (sent s s') \<and> exporter s' g = exporter s g"
  by (auto simp: untouched_def sent_def)

lemma setFromField_untouched:
  "h \<noteq> g \<Longrightarrow> untouched g s (final (setFromField pf parts i h s))"
  by (auto simp: setFromField_def untouched_def split: sum.splits)

text \<open>A run of table rows for other gauges sets and sends none of \<open>g\<close>.\<close>

lemma fields_untouched:
  "g \<notin> snd ` set tbl \<Longrightarrow>
   untouched g s (final (steps (map (\<lambda>(i, h). setFromField pf parts i h) tbl) s))"
proof (induction tbl arbitrary: s)
  case Nil
  then show ?case by (simp add: untouched_refl)
next
  case (Cons row tbl)
  obtain j h where row: "row = (j, h)" by (cases row)
  from Cons.prems row have hg: "h \<noteq> g" and rest: "g \<notin> snd ` set tbl"
    by auto
  show ?case
  proof (cases "setFromField pf parts j h s")
    case (Stopped a s1)
    with setFromField_untouched [OF hg, of s pf parts j] row show ?thesis
      by simp
  next
    case (Return s1)
    with setFromField_untouched [OF hg, of s pf parts j]
    have "untouched g s s1" by simp
    moreover have "untouched g s1 (final (steps (map (\<lambda>(i, h). setFromField pf parts i h) tbl) s1))"
      by (rule Cons.IH [OF rest])
    ultimately show ?thesis
      using Return row by (simp add: untouched_trans)
  qed
qed

lemma collector_untouched:
  "g \<notin> snd ` set (fieldTable c) \<Longrightarrow> untouched g s (final (collector c pf latestJstat s))"
  by (cases "get latestJstat (flag c)")
     (simp add: collector_table fields_untouched untouched_refl del: steps.simps)

text \<open>
  A row whose field is there and does not parse: the run ends in \<^verbatim>\<open>log.Fatal\<close>, at that
  row or at an earlier one, before the row's gauge is set.
\<close>

lemma fields_fatal:
  assumes "(i, g) \<in> set tbl"
    and "sorted_wrt (<) (map fst tbl)"
    and "distinct (map snd tbl)"
    and "i < length parts"
    and "pf (parts ! i) = Inl err"
  shows "\<exists>e s'. steps (map (\<lambda>(i, h). setFromField pf parts i h) tbl) s = Stopped (Fatal e) s' \<and>
           (\<exists>(j, h)\<in>set tbl. j \<le> i \<and> pf (parts ! j) = Inl e) \<and> untouched g s s'"
  using assms(1-3)
proof (induction tbl arbitrary: s)
  case Nil
  then show ?case by simp
next
  case (Cons row tbl)
  obtain j h where row: "row = (j, h)" by (cases row)
  show ?case
  proof (cases "row = (i, g)")
    case True
    then show ?thesis
      using assms(4,5) by (auto simp: setFromField_fatal untouched_refl)
  next
    case False
    with Cons.prems(1) have mem: "(i, g) \<in> set tbl" by simp
    from Cons.prems(2) mem row have ji: "j < i" by force
    from Cons.prems(3) mem row have hg: "h \<noteq> g" by force
    from Cons.prems(2,3) have sorted: "sorted_wrt (<) (map fst tbl)"
      and dist: "distinct (map snd tbl)" by simp_all
    from ji assms(4) have jlen: "j < length parts" by simp
    show ?thesis
    proof (cases "pf (parts ! j)")
      case (Inl e)
      then have "steps (map (\<lambda>(i, h). setFromField pf parts i h) (row # tbl)) s = Stopped (Fatal e) s"
        using row jlen by (simp add: setFromField_fatal)
      moreover have "\<exists>(j, h)\<in>set (row # tbl). j \<le> i \<and> pf (parts ! j) = Inl e"
        using row ji Inl by auto
      ultimately show ?thesis
        using untouched_refl by blast
    next
      case (Inr v)
      define s1 where "s1 = s\<lparr>exporter := (exporter s)(h := v), ch := ch s @ [(h, v)]\<rparr>"
      have step: "setFromField pf parts j h s = Return s1"
        using jlen Inr by (simp add: setFromField_ok s1_def)
      have u1: "untouched g s s1"
        using setFromField_untouched [OF hg, of s pf parts j] step by simp
      from Cons.IH [OF mem sorted dist, of s1]
      obtain e s' where run: "steps (map (\<lambda>(i, h). setFromField pf parts i h) tbl) s1 = Stopped (Fatal e) s'"
        and bad: "\<exists>(j, h)\<in>set tbl. j \<le> i \<and> pf (parts ! j) = Inl e"
        and u2: "untouched g s1 s'"
        by blast
      have "steps (map (\<lambda>(i, h). setFromField pf parts i h) (row # tbl)) s = Stopped (Fatal e) s'"
        using row step run by simp
      moreover have "\<exists>(j, h)\<in>set (row # tbl). j \<le> i \<and> pf (parts ! j) = Inl e"
        using bad by auto
      moreover have "untouched g s s'"
        using u1 u2 by (rule untouched_trans)
      ultimately show ?thesis by blast
    qed
  qed
qed

lemma fieldTable_sorted: "sorted_wrt (<) (map fst (fieldTable c))"
  by (cases c) simp_all

lemma fieldTable_distinct: "distinct (map snd (fieldTable c))"
  by (cases c) simp_all

lemma fieldTable_disjoint:
  "g \<in> snd ` set (fieldTable c) \<Longrightarrow> c' \<noteq> c \<Longrightarrow> g \<notin> snd ` set (fieldTable c')"
  by (cases c; cases c') auto

lemma collector_fatal:
  assumes "latestJstat (flag c) = Some line"
    and "line \<noteq> []"
    and "(i, g) \<in> set (fieldTable c)"
    and "i < length (Fields line)"
    and "pf (Fields line ! i) = Inl err"
  shows "\<exists>e s'. collector c pf latestJstat s = Stopped (Fatal e) s' \<and>
           (\<exists>(j, h)\<in>set (fieldTable c). j \<le> i \<and> pf (Fields line ! j) = Inl e) \<and>
           untouched g s s'"
  using fields_fatal [where pf = pf and parts = "Fields line" and s = s,
      OF assms(3) fieldTable_sorted fieldTable_distinct assms(4,5)]
    assms(1,2)
  by (simp add: collector_table get_def del: steps.simps)

text \<open>
  Collectors in sequence, one of which ends the process: the run does not return, and the
  gauge stays untouched if the other collectors do not own it.
\<close>

lemma collectors_stop:
  assumes "c \<in> set cs"
    and "\<forall>c'\<in>set cs. c' \<noteq> c \<longrightarrow> g \<notin> snd ` set (fieldTable c')"
    and "\<And>s. \<exists>a s'. collector c pf latestJstat s = Stopped a s' \<and> untouched g s s'"
  shows "\<exists>a s'. steps (map (\<lambda>c. collector c pf latestJstat) cs) s = Stopped a s' \<and>
           untouched g s s'"
  using assms(1,2)
proof (induction cs arbitrary: s)
  case Nil
  then show ?case by simp
next
  case (Cons c' cs)
  show ?case
  proof (cases "c' = c")
    case True
    with assms(3) [of s] show ?thesis by auto
  next
    case False
    with Cons.prems have mem: "c \<in> set cs"
      and own: "g \<notin> snd ` set (fieldTable c')"
      and others: "\<forall>c'\<in>set cs. c' \<noteq> c \<longrightarrow> g \<notin> snd ` set (fieldTable c')"
      by auto
    show ?thesis
    proof (cases "collector c' pf latestJstat s")
      case (Stopped a s1)
      with collector_untouched [OF own, of s pf latestJstat] show ?thesis
        by auto
    next
      case (Return s1)
      with collector_untouched [OF own, of s pf latestJstat]
      have u1: "untouched g s s1" by simp
      from Cons.IH [OF mem others, of s1]
      obtain a s' where run: "steps (map (\<lambda>c. collector c pf latestJstat) cs) s1 = Stopped a s'"
        and u2: "untouched g s1 s'"
        by blast
      have "steps (map (\<lambda>c. collector c pf latestJstat) (c' # cs)) s = Stopped a s'"
        using Return run by simp
      with untouched_trans [OF u1 u2] show ?thesis by blast
    qed
  qed
qed

text \<open>
  Claim C3. For every category whose stored line is not empty: if a field that the
  category's row of the table requires is there and does not parse, the category's collector
  ends the process through \<^verbatim>\<open>log.Fatal\<close> with the parse error of a required field (that
  field's, or an earlier required field's that does not parse either), and the gauge of the
  failing field is neither set nor sent. The whole scrape does not return either, so no
  later category is collected, and in it too that gauge is neither set nor sent.
\<close>

theorem unparseable_token_is_fatal:
  assumes "latestJstat (flag c) = Some line"
    and "line \<noteq> []"
    and "(i, g) \<in> set (fieldTable c)"
    and "i < length (Fields line)"
    and "pf (Fields line ! i) = Inl err"
  shows "(\<exists>e s'. collector c pf latestJstat s = Stopped (Fatal e) s' \<and>
            (\<exists>(j, h)\<in>set (fieldTable c). j \<le> i \<and> pf (Fields line ! j) = Inl e) \<and>
            g \<notin> fst ` set (sent s s') \<and> exporter s' g = exporter s g) \<and>
         (\<exists>a s'. Collect pf latestJstat s = Stopped a s' \<and>
            g \<notin> fst ` set (sent s s') \<and> exporter s' g = exporter s g)"
proof
  from collector_fatal [where pf = pf and latestJstat = latestJstat and s = s, OF assms]
  show "\<exists>e s'. collector c pf latestJstat s = Stopped (Fatal e) s' \<and>
            (\<exists>(j, h)\<in>set (fieldTable c). j \<le> i \<and> pf (Fields line ! j) = Inl e) \<and>
            g \<notin> fst ` set (sent s s') \<and> exporter s' g = exporter s g"
    using untouched_sent by blast
next
  have mem: "c \<in> set [Gccapacity, Gcold, Gcnew, Gc]"
    by (cases c) simp_all
  have own: "g \<in> snd ` set (fieldTable c)"
    using assms(3) by force
  have others: "\<forall>c'\<in>set [Gccapacity, Gcold, Gcnew, Gc]. c' \<noteq> c \<longrightarrow> g \<notin> snd ` set (fieldTable c')"
    using fieldTable_disjoint [OF own] by blast
  have stop: "\<exists>a s'. collector c pf latestJstat s0 = Stopped a s' \<and> untouched g s0 s'" for s0
    using collector_fatal [where pf = pf and latestJstat = latestJstat and s = s0, OF assms]
    by blast
  from collectors_stop [OF mem others stop, of s]
  show "\<exists>a s'. Collect pf latestJstat s = Stopped a s' \<and>
            g \<notin> fst ` set (sent s s') \<and> exporter s' g = exporter s g"
    unfolding Collect_collectors using untouched_sent by blast
qed


lemma gcold_bad_line:
  "Fields ''11904.0 11290.5 1408.0 1256.9 25600.0 - 4 0 0.000 0.021'' =
   [''11904.0'', ''11290.5'', ''1408.0'', ''1256.9'', ''25600.0'', ''-'', ''4'', ''0'',
    ''0.000'', ''0.021'']"
  by code_simp

text \<open>
  A line of \<^verbatim>\<open>jstat -gcold\<close> whose field 5 is \<^verbatim>\<open>-\<close>.
\<close>

theorem unparseable_token_is_fatal_witness:
  "(\<exists>e s'. collector Gcold plainDecimal
              (emptyStore(''-gcold'' \<mapsto> ''11904.0 11290.5 1408.0 1256.9 25600.0 - 4 0 0.000 0.021''))
              newScrape = Stopped (Fatal e) s' \<and>
            (\<exists>(j, h)\<in>set (fieldTable Gcold). j \<le> 5 \<and>
               plainDecimal (Fields ''11904.0 11290.5 1408.0 1256.9 25600.0 - 4 0 0.000 0.021'' ! j)
                 = Inl e) \<and>
            oldUsed \<notin> fst ` set (sent newScrape s') \<and>
            exporter s' oldUsed = exporter newScrape oldUsed) \<and>
   (\<exists>a s'. Collect plainDecimal
              (emptyStore(''-gcold'' \<mapsto> ''11904.0 11290.5 1408.0 1256.9 25600.0 - 4 0 0.000 0.021''))
              newScrape = Stopped a s' \<and>
            oldUsed \<notin> fst ` set (sent newScrape s') \<and>
            exporter s' oldUsed = exporter newScrape oldUsed)"
  by (rule unparseable_token_is_fatal [where err = ErrSyntax])
     (simp_all add: gcold_bad_line plainDecimal_gcold)

section \<open>Properties of the poller and the store\<close>

lemma put_put: "put command b (put command a latestJstat) = put command b latestJstat"
  by (simp add: put_def)

lemma scanLines_not_first:
  "scanLines command False lines latestJstat =
     (if lines = [] then latestJstat else put command (last lines) latestJstat)"
  by (induction lines arbitrary: latestJstat) (simp_all add: put_put)

lemma session_Cons:
  "session command (header # lines) latestJstat =
     (if lines = [] then latestJstat else put command (last lines) latestJstat)"
  by (simp add: session_def scanLines_not_first)

text \<open>
  The store after a prefix of the output is the store the loop has reached when it has
  read that prefix: the rest of the loop goes on from there.
\<close>

lemma scanLines_append:
  "scanLines command first (xs @ ys) latestJstat =
     scanLines command (first \<and> xs = []) ys (scanLines command first xs latestJstat)"
  by (induction xs arbitrary: first latestJstat) simp_all

text \<open>
  Claim C4. In one polling session the first line is dropped, whatever it is, and every
  later line is stored under the poller's category as it is: after no line or only the
  header the store is unchanged; after the header, any lines and then \<open>line\<close>, the store
  holds \<open>line\<close> under the category and is unchanged elsewhere. With no earlier lines this
  is the first sample published, the second line of the output.
\<close>

theorem header_discarded_lines_published:
  "session command [] latestJstat = latestJstat \<and>
   session command [header] latestJstat = latestJstat \<and>
   session command (header # earlier @ [line]) latestJstat = latestJstat(command \<mapsto> line)"
  by (simp add: session_Cons put_def) (simp add: session_def)

text \<open>
  The poller fed \<^verbatim>\<open>H1 H2\<close>, \<^verbatim>\<open>1 2 3\<close>, \<^verbatim>\<open>4 5 6\<close>: the store after one, two and three lines.
\<close>

theorem header_discarded_lines_published_witness:
  "session ''-gc'' [''H1 H2''] emptyStore = emptyStore \<and>
   session ''-gc'' [''H1 H2'', ''1 2 3''] emptyStore = emptyStore(''-gc'' \<mapsto> ''1 2 3'') \<and>
   session ''-gc'' [''H1 H2'', ''1 2 3'', ''4 5 6''] emptyStore = emptyStore(''-gc'' \<mapsto> ''4 5 6'')"
  using header_discarded_lines_published [of "''-gc''" emptyStore "''H1 H2''" "[]" "''1 2 3''"]
    header_discarded_lines_published [of "''-gc''" emptyStore "''H1 H2''" "[''1 2 3'']" "''4 5 6''"]
  by simp

lemma session_entry:
  "session command lines latestJstat command = latestJstat command \<or>
   (\<exists>line\<in>set (tl lines). session command lines latestJstat command = Some line)"
proof (cases lines)
  case Nil
  then show ?thesis by (simp add: session_def)
next
  case (Cons header rest)
  then show ?thesis
    by (cases "rest = []") (simp_all add: session_Cons put_def)
qed

text \<open>
  Claim C5. After sample \<open>a\<close> and then sample \<open>b\<close> are published for a category, reading
  that category gives exactly \<open>b\<close>: the store is the one in which \<open>a\<close> was never
  published, and the fields read from the entry are those of \<open>b\<close>. Publishing for one
  category leaves the entry of every other category as it was. After a session the entry
  of its category is what it was before or is one of the lines after the header, whole.
\<close>

theorem latest_put_wins:
  "get (put c b (put c a latestJstat)) c = (b, True) \<and>
   put c b (put c a latestJstat) = put c b latestJstat \<and>
   Fields (fst (get (put c b (put c a latestJstat)) c)) = Fields b \<and>
   (c' \<noteq> c \<longrightarrow> get (put c b latestJstat) c' = get latestJstat c') \<and>
   (session c lines latestJstat c = latestJstat c \<or>
    (\<exists>line\<in>set (tl lines). session c lines latestJstat c = Some line))"
  using session_entry [of c lines latestJstat]
  by (simp add: get_def put_def)

text \<open>
  Two samples for \<^verbatim>\<open>-gc\<close>, read back, and the entry of \<^verbatim>\<open>-gcold\<close> beside them.
\<close>

theorem latest_put_wins_witness:
  "get (put ''-gc'' ''4 5 6'' (put ''-gc'' ''1 2 3'' emptyStore)) ''-gc'' = (''4 5 6'', True) \<and>
   get (put ''-gc'' ''4 5 6'' emptyStore) ''-gcold'' = get emptyStore ''-gcold''"
  using latest_put_wins [of "''-gc''" "''4 5 6''" "''1 2 3''" emptyStore "''-gcold''" "[]"]
  by blast

text \<open>
  Claim C9. When the last line of a session is empty, the store holds the empty line for
  the category, whatever lines came before it, and the category's collector returns at
  once with nothing set and nothing sent, as it does when the store has no entry for the
  category.
\<close>

theorem empty_line_emits_nothing:
  "get (session (flag c) (header # earlier @ [[]]) latestJstat) (flag c) = ([], True) \<and>
   collector c pf (session (flag c) (header # earlier @ [[]]) latestJstat) s = Return s \<and>
   collector c pf (latestJstat(flag c := None)) s = Return s"
proof -
  have stored: "session (flag c) (header # earlier @ [[]]) latestJstat (flag c) = Some []"
    by (simp add: session_Cons put_def)
  show ?thesis
    using stored by (simp add: collector_skips get_def)
qed

text \<open>
  A header, a full sample and an empty line for \<^verbatim>\<open>-gc\<close>, against the empty store.
\<close>

theorem empty_line_emits_nothing_witness:
  "get (session ''-gc'' [''S0C S1C'', ''0.0 1.0 2.0 3.0 4.0 5.0 6.0 7.0 8.0 9.0 10.0 11.0 12.0 13.0 14.0 15.0'', []] emptyStore) ''-gc''
     = ([], True) \<and>
   JstatGc plainDecimal
     (session ''-gc'' [''S0C S1C'', ''0.0 1.0 2.0 3.0 4.0 5.0 6.0 7.0 8.0 9.0 10.0 11.0 12.0 13.0 14.0 15.0'', []] emptyStore)
     newScrape = Return newScrape \<and>
   JstatGc plainDecimal emptyStore newScrape = Return newScrape"
  using empty_line_emits_nothing [of Gc "''S0C S1C''"
      "[''0.0 1.0 2.0 3.0 4.0 5.0 6.0 7.0 8.0 9.0 10.0 11.0 12.0 13.0 14.0 15.0'']"
      emptyStore plainDecimal newScrape]
  by (simp add: emptyStore_def)

section \<open>Properties of the locator\<close>

lemma entries_Nil: "entries [] = []"
  by (simp add: entries_def)

lemma entries_Cons:
  "entries (line # rest) =
     (if length (Split line) = 2 then (Split line ! 0, Split line ! 1) # entries rest
      else entries rest)"
  by (simp add: entries_def)

text \<open>
  What the loop leaves in \<open>pid\<close>: the first item of the first eligible entry, and the
  empty string when there is none.
\<close>

lemma JpsScan_find:
  "JpsScan name lines =
     (case find (eligible name) (entries lines) of None \<Rightarrow> [] | Some e \<Rightarrow> fst e)"
proof (induction lines)
  case Nil
  show ?case by (simp add: entries_Nil)
next
  case (Cons line rest)
  show ?case
  proof (cases "length (Split line) = 2")
    case False
    with Cons.IH show ?thesis
      by (simp add: entries_Cons)
  next
    case True
    with Cons.IH show ?thesis
      by (simp add: entries_Cons eligible_def excluded_def Let_def)
  qed
qed

lemma Jps_find:
  "Jps name (Inr lines) =
     (case find (eligible name) (entries lines) of
        None \<Rightarrow> Inl (NoTargetProcess name)
      | Some e \<Rightarrow> if fst e = [] then Inl (NoTargetProcess name) else Inr (fst e))"
  by (simp add: Jps_def JpsScan_find split: option.splits)

text \<open>
  Claim C7. For every listing whose entries each have a pid, \<^verbatim>\<open>Jps\<close> is the locator of the
  specification: entries named \<^verbatim>\<open>Jps\<close> or \<^verbatim>\<open>Jstat\<close> are skipped; with a target name the pid of
  the first entry of exactly that name is returned; with the empty target name the pid of
  the first entry not skipped; and the error \<^verbatim>\<open>No target process\<close> when the listing ends
  without such an entry.
\<close>

theorem Jps_locates_first_eligible:
  assumes "\<forall>e\<in>set (entries lines). fst e \<noteq> []"
  shows "Jps name (Inr lines) = locate name lines"
proof (cases "find (eligible name) (entries lines)")
  case None
  then show ?thesis
    by (simp add: Jps_find locate_def)
next
  case (Some e)
  then have "e \<in> set (entries lines)"
    by (auto simp: find_Some_iff)
  with assms have "fst e \<noteq> []" by blast
  with Some show ?thesis
    by (simp add: Jps_find locate_def)
qed

lemma Split_examples:
  "Split ''1234 MyApp'' = [''1234'', ''MyApp'']"
  "Split ''5678 Jps'' = [''5678'', ''Jps'']"
  "Split ''4321 Jstat'' = [''4321'', ''Jstat'']"
  "Split ''77 Other'' = [''77'', ''Other'']"
  by (simp_all add: Split_def)

lemma listing_entries:
  "entries [''5678 Jps'', ''4321 Jstat'', ''77 Other'', ''1234 MyApp''] =
     [(''5678'', ''Jps''), (''4321'', ''Jstat''), (''77'', ''Other''), (''1234'', ''MyApp'')]"
  "entries [''1234 MyApp'', ''5678 Jps''] = [(''1234'', ''MyApp''), (''5678'', ''Jps'')]"
  by (simp_all add: entries_def Split_examples)

text \<open>
  The listing of the specification's scenario, and a listing that starts with the two
  tools, searched by name, without a name and for a name that is not there.
\<close>

theorem Jps_locates_first_eligible_witness:
  "Jps ''MyApp'' (Inr [''1234 MyApp'', ''5678 Jps'']) = Inr ''1234'' \<and>
   Jps ''MyApp'' (Inr [''5678 Jps'', ''4321 Jstat'', ''77 Other'', ''1234 MyApp'']) = Inr ''1234'' \<and>
   Jps [] (Inr [''5678 Jps'', ''4321 Jstat'', ''77 Other'', ''1234 MyApp'']) = Inr ''77'' \<and>
   Jps ''Absent'' (Inr [''5678 Jps'', ''4321 Jstat'', ''77 Other'', ''1234 MyApp''])
     = Inl (NoTargetProcess ''Absent'')"
  using Jps_locates_first_eligible [of "[''1234 MyApp'', ''5678 Jps'']" "''MyApp''"]
    Jps_locates_first_eligible [of "[''5678 Jps'', ''4321 Jstat'', ''77 Other'', ''1234 MyApp'']" "''MyApp''"]
    Jps_locates_first_eligible [of "[''5678 Jps'', ''4321 Jstat'', ''77 Other'', ''1234 MyApp'']" "[]"]
    Jps_locates_first_eligible [of "[''5678 Jps'', ''4321 Jstat'', ''77 Other'', ''1234 MyApp'']" "''Absent''"]
  by (simp add: listing_entries locate_def eligible_def excluded_def)

lemma find_excluded_name:
  "excluded name \<Longrightarrow> find (eligible name) es = None"
  by (auto simp: find_None_iff eligible_def excluded_def)

text \<open>
  Claim C10. With the target name \<^verbatim>\<open>Jps\<close> or \<^verbatim>\<open>Jstat\<close> the locator returns the error
  \<^verbatim>\<open>No target process\<close> for every listing: an entry of that name is skipped before its name
  is compared with the target.
\<close>

theorem Jps_never_selects_tool_names:
  assumes "name = ''Jps'' \<or> name = ''Jstat''"
  shows "Jps name (Inr lines) = Inl (NoTargetProcess name)"
proof -
  from assms have "excluded name"
    by (simp add: excluded_def)
  then show ?thesis
    by (simp add: Jps_find find_excluded_name)
qed

text \<open>
  Listings that do contain an entry of the requested name.
\<close>

theorem Jps_never_selects_tool_names_witness:
  "Jps ''Jps'' (Inr [''1234 MyApp'', ''5678 Jps'']) = Inl (NoTargetProcess ''Jps'') \<and>
   Jps ''Jstat'' (Inr [''4321 Jstat'']) = Inl (NoTargetProcess ''Jstat'')"
  using Jps_never_selects_tool_names [of "''Jps''" "[''1234 MyApp'', ''5678 Jps'']"]
    Jps_never_selects_tool_names [of "''Jstat''" "[''4321 Jstat'']"]
  by simp

end
